theory Spec2Isabelle
  imports Main
begin

section \<open>Python values and exceptions\<close>

text \<open>
  The module \<open>python/ray/experimental/data/impl/arrow_block.py\<close> builds and reads
  blocks of rows. Every method that can raise returns a sum, \<open>Inl\<close> carrying the
  exception class. A method that mutates \<open>self\<close> takes the object and returns the
  result together with the object after the call, so that a raise leaves exactly the
  mutations made before it.
\<close>

datatype error =
    ValueError | TypeError | ArrowInvalid | AssertionError
  | IndexError | AttributeError | StopIteration

text \<open>
  The scalar values a row can hold: \<open>None\<close>, an integer, a string, or an instance of
  some other class (identified by a number), which the table library cannot convert.
\<close>

datatype pyval = PyNone | PyInt int | PyStr string | PyObject nat

text \<open>
  A Python \<open>dict\<close> with string keys is an association list in insertion order; a
  real dict never holds a key twice, which is \<open>distinct (map fst d)\<close>. Two dicts are
  equal in Python when they hold the same keys with equal values, whatever the order.
\<close>

type_synonym pydict = "(string \<times> pyval) list"

definition dict_eq :: "pydict \<Rightarrow> pydict \<Rightarrow> bool" where
  "dict_eq d e = (set d = set e)"

section \<open>The external table library\<close>

text \<open>
  Modelled from the spec: the columnar-table library (\<open>pyarrow\<close>) is not part of the
  repository; section 6 of the specification gives its interface. A table is a list of
  named, typed columns. Its operations are "construct table from named columns" (fails
  with a type/shape error when a column is not homogeneous or cannot be converted, or
  when the columns differ in length), "concatenate tables" (fails when the schemas
  differ), "slice table", "table row count" and the conversion of a table back to a
  mapping from column name to values. Integers outside the signed 64-bit range count as
  not convertible.
\<close>

datatype arrow_type = NullType | Int64Type | StringType

type_synonym column = "string \<times> arrow_type \<times> pyval list"

datatype table = Table (table_columns: "column list")

fun value_type :: "pyval \<Rightarrow> arrow_type option" where
  "value_type PyNone = Some NullType"
| "value_type (PyInt i) =
     (if - (2 ^ 63) \<le> i \<and> i < 2 ^ 63 then Some Int64Type else None)"
| "value_type (PyStr s) = Some StringType"
| "value_type (PyObject n) = None"

fun unify_type :: "arrow_type \<Rightarrow> arrow_type \<Rightarrow> arrow_type option" where
  "unify_type NullType t = Some t"
| "unify_type t NullType = Some t"
| "unify_type t u = (if t = u then Some t else None)"

fun infer_type :: "pyval list \<Rightarrow> arrow_type option" where
  "infer_type [] = Some NullType"
| "infer_type (v # vs) =
     (case value_type v of
        None \<Rightarrow> None
      | Some t \<Rightarrow> (case infer_type vs of None \<Rightarrow> None | Some u \<Rightarrow> unify_type t u))"

fun make_arrays :: "(string \<times> pyval list) list \<Rightarrow> column list option" where
  "make_arrays [] = Some []"
| "make_arrays ((k, vs) # rest) =
     (case infer_type vs of
        None \<Rightarrow> None
      | Some t \<Rightarrow> (case make_arrays rest of None \<Rightarrow> None | Some cs \<Rightarrow> Some ((k, t, vs) # cs)))"

definition equal_lengths :: "column list \<Rightarrow> bool" where
  "equal_lengths cs =
     (case cs of
        [] \<Rightarrow> True
      | (k, t, vs) # rest \<Rightarrow> list_all (\<lambda>(k', t', ws). length ws = length vs) rest)"

definition Table_from_pydict :: "(string \<times> pyval list) list \<Rightarrow> error + table" where
  "Table_from_pydict d =
     (case make_arrays d of
        None \<Rightarrow> Inl ArrowInvalid
      | Some cs \<Rightarrow> if equal_lengths cs then Inr (Table cs) else Inl ArrowInvalid)"

definition table_schema :: "table \<Rightarrow> (string \<times> arrow_type) list" where
  "table_schema t = map (\<lambda>(k, ty, vs). (k, ty)) (table_columns t)"

definition append_columns :: "column list \<Rightarrow> column list \<Rightarrow> column list" where
  "append_columns cs ds = map (\<lambda>((k, ty, vs), (k', ty', ws)). (k, ty, vs @ ws)) (zip cs ds)"

fun concat_tables :: "table list \<Rightarrow> error + table" where
  "concat_tables [] = Inl ArrowInvalid"
| "concat_tables (t # ts) =
     (if list_all (\<lambda>u. table_schema u = table_schema t) ts
      then Inr (Table (foldl append_columns (table_columns t) (map table_columns ts)))
      else Inl ArrowInvalid)"

definition table_num_rows :: "table \<Rightarrow> int" where
  "table_num_rows t =
     (case table_columns t of [] \<Rightarrow> 0 | (k, ty, vs) # rest \<Rightarrow> int (length vs))"

definition table_slice :: "table \<Rightarrow> int \<Rightarrow> int \<Rightarrow> table" where
  "table_slice t offset len =
     Table (map (\<lambda>(k, ty, vs). (k, ty, take (nat len) (drop (nat offset) vs)))
                (table_columns t))"

definition table_to_pydict :: "table \<Rightarrow> (string \<times> pyval list) list" where
  "table_to_pydict t = map (\<lambda>(k, ty, vs). (k, vs)) (table_columns t)"

section \<open>ArrowRow\<close>

datatype ArrowRow = ArrowRow (row: table)

text \<open>
  \<open>{k: v[0] for k, v in self._row.to_pydict().items()}\<close>: \<open>v[0]\<close> raises
  \<open>IndexError\<close> on a column without values.
\<close>

fun first_values :: "(string \<times> pyval list) list \<Rightarrow> error + pydict" where
  "first_values [] = Inr []"
| "first_values ((k, v) # rest) =
     (case v of
        [] \<Rightarrow> Inl IndexError
      | x # xs \<Rightarrow> (case first_values rest of Inl e \<Rightarrow> Inl e | Inr d \<Rightarrow> Inr ((k, x) # d)))"

definition as_pydict :: "ArrowRow \<Rightarrow> error + pydict" where
  "as_pydict self = first_values (table_to_pydict (row self))"

definition ArrowRow_keys :: "ArrowRow \<Rightarrow> error + string list" where
  "ArrowRow_keys self = map_sum id (map fst) (as_pydict self)"

definition ArrowRow_values :: "ArrowRow \<Rightarrow> error + pyval list" where
  "ArrowRow_values self = map_sum id (map snd) (as_pydict self)"

definition ArrowRow_items :: "ArrowRow \<Rightarrow> error + (string \<times> pyval) list" where
  "ArrowRow_items self = as_pydict self"

text \<open>The objects handed to \<open>add\<close>: a dict, a row view, or anything else.\<close>

datatype item = PyDict pydict | PyRow ArrowRow | PyOther pyval

definition isinstance_dict :: "item \<Rightarrow> bool" where
  "isinstance_dict x = (case x of PyDict d \<Rightarrow> True | _ \<Rightarrow> False)"

definition isinstance_ArrowRow :: "item \<Rightarrow> bool" where
  "isinstance_ArrowRow x = (case x of PyRow r \<Rightarrow> True | _ \<Rightarrow> False)"

text \<open>
  \<open>d == other\<close> for a dict \<open>d\<close>: against a dict it compares contents; against an
  \<open>ArrowRow\<close> the dict's own comparison gives \<open>NotImplemented\<close> and Python calls the
  reflected \<open>other.__eq__(d)\<close>; against anything else both sides give
  \<open>NotImplemented\<close> and the objects, not being identical, are unequal.
\<close>

definition dict_eq_object :: "pydict \<Rightarrow> item \<Rightarrow> error + bool" where
  "dict_eq_object d other =
     (case other of
        PyDict e \<Rightarrow> Inr (dict_eq d e)
      | PyRow r \<Rightarrow> (case as_pydict r of Inl err \<Rightarrow> Inl err | Inr e \<Rightarrow> Inr (dict_eq e d))
      | PyOther v \<Rightarrow> Inr False)"

definition ArrowRow_eq :: "ArrowRow \<Rightarrow> item \<Rightarrow> error + bool" where
  "ArrowRow_eq self other =
     (case as_pydict self of Inl err \<Rightarrow> Inl err | Inr d \<Rightarrow> dict_eq_object d other)"

section \<open>Blocks and ArrowBlockBuilder\<close>

text \<open>A block is a table of the library or a plain list of items.\<close>

datatype block = ArrowBlock table | SimpleBlock "item list"

record ArrowBlockBuilder =
  b_columns :: "(string \<times> pyval list) list"
  b_tables :: "table list"
  b_num_rows :: int

text \<open>The constructor, with the library installed.\<close>

definition ArrowBlockBuilder_init :: ArrowBlockBuilder where
  "ArrowBlockBuilder_init = \<lparr>b_columns = [], b_tables = [], b_num_rows = 0\<rparr>"

text \<open>
  \<open>self._columns[key].append(value)\<close> on a \<open>defaultdict(list)\<close>: a new key enters at
  the end with a one-element list, a known key keeps its place.
\<close>

fun append_value :: "string \<Rightarrow> pyval \<Rightarrow> (string \<times> pyval list) list \<Rightarrow> (string \<times> pyval list) list" where
  "append_value key v [] = [(key, [v])]"
| "append_value key v ((k, vs) # rest) =
     (if k = key then (k, vs @ [v]) # rest else (k, vs) # append_value key v rest)"

definition append_items :: "pydict \<Rightarrow> (string \<times> pyval list) list \<Rightarrow> (string \<times> pyval list) list" where
  "append_items d cols = foldl (\<lambda>c (key, v). append_value key v c) cols d"

definition ArrowBlockBuilder_add ::
    "item \<Rightarrow> ArrowBlockBuilder \<Rightarrow> (error + unit) \<times> ArrowBlockBuilder" where
  "ArrowBlockBuilder_add item0 self =
     (case (case item0 of PyRow r \<Rightarrow> map_sum id PyDict (as_pydict r) | _ \<Rightarrow> Inr item0) of
        Inl e \<Rightarrow> (Inl e, self)
      | Inr item1 \<Rightarrow>
          (case item1 of
             PyDict d \<Rightarrow>
               (Inr (), self\<lparr>b_columns := append_items d (b_columns self),
                              b_num_rows := b_num_rows self + 1\<rparr>)
           | _ \<Rightarrow> (Inl ValueError, self)))"

definition ArrowBlockBuilder_add_block ::
    "block \<Rightarrow> ArrowBlockBuilder \<Rightarrow> (error + unit) \<times> ArrowBlockBuilder" where
  "ArrowBlockBuilder_add_block blk self =
     (case blk of
        ArrowBlock t \<Rightarrow>
          (Inr (), self\<lparr>b_tables := b_tables self @ [t],
                         b_num_rows := b_num_rows self + table_num_rows t\<rparr>)
      | _ \<Rightarrow> (Inl AssertionError, self))"

text \<open>
  \<open>build\<close>, with the library's two operations as parameters: the first builds a table
  from columns, the second concatenates tables.
\<close>

definition ArrowBlockBuilder_build_with ::
    "((string \<times> pyval list) list \<Rightarrow> error + table) \<Rightarrow> (table list \<Rightarrow> error + table) \<Rightarrow>
     ArrowBlockBuilder \<Rightarrow> error + table" where
  "ArrowBlockBuilder_build_with from_pydict concat_op self =
     (case (if b_columns self \<noteq> []
            then map_sum id (\<lambda>t. [t]) (from_pydict (b_columns self))
            else Inr []) of
        Inl e \<Rightarrow> Inl e
      | Inr ts0 \<Rightarrow>
          (let ts = ts0 @ b_tables self in
           if length ts > 1 then concat_op ts
           else if length ts > 0 then Inr (hd ts)
           else from_pydict []))"

definition ArrowBlockBuilder_build :: "ArrowBlockBuilder \<Rightarrow> error + table" where
  "ArrowBlockBuilder_build = ArrowBlockBuilder_build_with Table_from_pydict concat_tables"

definition ArrowBlockBuilder_num_rows :: "ArrowBlockBuilder \<Rightarrow> int" where
  "ArrowBlockBuilder_num_rows self = b_num_rows self"

section \<open>SimpleBlockBuilder\<close>

text \<open>
  Modelled from the spec: \<open>SimpleBlockBuilder\<close> lives in \<open>impl/block_builder.py\<close>,
  which is not among the sources. Section 4.1: \<open>add\<close> appends the item verbatim with
  no validation, \<open>add_block\<close> appends all rows of the other block in order (the other
  block must be of the simple representation), \<open>build\<close> returns the accumulated
  sequence, \<open>num_rows\<close> is its length.
\<close>

record SimpleBlockBuilder =
  s_items :: "item list"

definition SimpleBlockBuilder_init :: SimpleBlockBuilder where
  "SimpleBlockBuilder_init = \<lparr>s_items = []\<rparr>"

definition SimpleBlockBuilder_add ::
    "item \<Rightarrow> SimpleBlockBuilder \<Rightarrow> (error + unit) \<times> SimpleBlockBuilder" where
  "SimpleBlockBuilder_add item0 self = (Inr (), self\<lparr>s_items := s_items self @ [item0]\<rparr>)"

definition SimpleBlockBuilder_add_block ::
    "block \<Rightarrow> SimpleBlockBuilder \<Rightarrow> (error + unit) \<times> SimpleBlockBuilder" where
  "SimpleBlockBuilder_add_block blk self =
     (case blk of
        SimpleBlock xs \<Rightarrow> (Inr (), self\<lparr>s_items := s_items self @ xs\<rparr>)
      | _ \<Rightarrow> (Inl AssertionError, self))"

definition SimpleBlockBuilder_build :: "SimpleBlockBuilder \<Rightarrow> item list" where
  "SimpleBlockBuilder_build self = s_items self"

definition SimpleBlockBuilder_num_rows :: "SimpleBlockBuilder \<Rightarrow> int" where
  "SimpleBlockBuilder_num_rows self = int (length (s_items self))"

section \<open>DelegatingArrowBlockBuilder\<close>

text \<open>
  \<open>self._builder\<close> is \<open>None\<close> or one of the two concrete builders; a method call on
  it dispatches on the class.
\<close>

datatype block_builder = Arrow ArrowBlockBuilder | Simple SimpleBlockBuilder

fun builder_add :: "item \<Rightarrow> block_builder \<Rightarrow> (error + unit) \<times> block_builder" where
  "builder_add x (Arrow b) = map_prod id Arrow (ArrowBlockBuilder_add x b)"
| "builder_add x (Simple b) = map_prod id Simple (SimpleBlockBuilder_add x b)"

fun builder_add_block :: "block \<Rightarrow> block_builder \<Rightarrow> (error + unit) \<times> block_builder" where
  "builder_add_block blk (Arrow b) = map_prod id Arrow (ArrowBlockBuilder_add_block blk b)"
| "builder_add_block blk (Simple b) = map_prod id Simple (SimpleBlockBuilder_add_block blk b)"

fun builder_build :: "block_builder \<Rightarrow> error + block" where
  "builder_build (Arrow b) = map_sum id ArrowBlock (ArrowBlockBuilder_build b)"
| "builder_build (Simple b) = Inr (SimpleBlock (SimpleBlockBuilder_build b))"

fun builder_num_rows :: "block_builder \<Rightarrow> int" where
  "builder_num_rows (Arrow b) = ArrowBlockBuilder_num_rows b"
| "builder_num_rows (Simple b) = SimpleBlockBuilder_num_rows b"

record DelegatingArrowBlockBuilder =
  d_builder :: "block_builder option"

definition DelegatingArrowBlockBuilder_init :: DelegatingArrowBlockBuilder where
  "DelegatingArrowBlockBuilder_init = \<lparr>d_builder = None\<rparr>"

text \<open>The \<open>except (TypeError, pyarrow.lib.ArrowInvalid)\<close> clause.\<close>

definition caught :: "error \<Rightarrow> bool" where
  "caught e \<longleftrightarrow> e = TypeError \<or> e = ArrowInvalid"

text \<open>
  The body of the \<open>try\<close>: a throwaway builder receives the item and is built; the
  result is dropped, only a raise matters.
\<close>

definition trial :: "item \<Rightarrow> error + unit" where
  "trial item0 =
     (let check = ArrowBlockBuilder_init in
      case ArrowBlockBuilder_add item0 check of
        (Inl e, check1) \<Rightarrow> Inl e
      | (Inr u, check1) \<Rightarrow>
          (case ArrowBlockBuilder_build check1 of Inl e \<Rightarrow> Inl e | Inr t \<Rightarrow> Inr ()))"

text \<open>
  The first half of \<open>add\<close>: the choice of the concrete builder while \<open>_builder\<close> is
  \<open>None\<close>. An exception of the trial that the clause does not catch leaves the method.
\<close>

definition choose_builder ::
    "item \<Rightarrow> DelegatingArrowBlockBuilder \<Rightarrow> error + DelegatingArrowBlockBuilder" where
  "choose_builder item0 self =
     (if d_builder self = None then
        (if isinstance_dict item0 then
           (case trial item0 of
              Inr u \<Rightarrow> Inr (self\<lparr>d_builder := Some (Arrow ArrowBlockBuilder_init)\<rparr>)
            | Inl e \<Rightarrow>
                if caught e
                then Inr (self\<lparr>d_builder := Some (Simple SimpleBlockBuilder_init)\<rparr>)
                else Inl e)
         else Inr (self\<lparr>d_builder := Some (Simple SimpleBlockBuilder_init)\<rparr>))
      else Inr self)"

definition DelegatingArrowBlockBuilder_add ::
    "item \<Rightarrow> DelegatingArrowBlockBuilder \<Rightarrow> (error + unit) \<times> DelegatingArrowBlockBuilder" where
  "DelegatingArrowBlockBuilder_add item0 self =
     (case choose_builder item0 self of
        Inl e \<Rightarrow> (Inl e, self)
      | Inr self1 \<Rightarrow>
          (case d_builder self1 of
             None \<Rightarrow> (Inl AttributeError, self1)
           | Some b \<Rightarrow>
               (case builder_add item0 b of
                  (r, b1) \<Rightarrow> (r, self1\<lparr>d_builder := Some b1\<rparr>))))"

text \<open>
  Modelled from the spec: \<open>BlockAccessor.for_block(block).builder()\<close> lives in
  \<open>data/block.py\<close>, which is not among the sources. Section 4.4: the concrete builder
  is the one matching the block's own representation.
\<close>

definition for_block_builder :: "block \<Rightarrow> block_builder" where
  "for_block_builder blk =
     (case blk of
        ArrowBlock t \<Rightarrow> Arrow ArrowBlockBuilder_init
      | SimpleBlock xs \<Rightarrow> Simple SimpleBlockBuilder_init)"

definition DelegatingArrowBlockBuilder_add_block ::
    "block \<Rightarrow> DelegatingArrowBlockBuilder \<Rightarrow> (error + unit) \<times> DelegatingArrowBlockBuilder" where
  "DelegatingArrowBlockBuilder_add_block blk self =
     (let self1 = (if d_builder self = None
                   then self\<lparr>d_builder := Some (for_block_builder blk)\<rparr> else self) in
      case d_builder self1 of
        None \<Rightarrow> (Inl AttributeError, self1)
      | Some b \<Rightarrow>
          (case builder_add_block blk b of
             (r, b1) \<Rightarrow> (r, self1\<lparr>d_builder := Some b1\<rparr>)))"

definition DelegatingArrowBlockBuilder_build ::
    "DelegatingArrowBlockBuilder \<Rightarrow> (error + block) \<times> DelegatingArrowBlockBuilder" where
  "DelegatingArrowBlockBuilder_build self =
     (let self1 = (if d_builder self = None
                   then self\<lparr>d_builder := Some (Arrow ArrowBlockBuilder_init)\<rparr> else self) in
      case d_builder self1 of
        None \<Rightarrow> (Inl AttributeError, self1)
      | Some b \<Rightarrow> (builder_build b, self1))"

definition DelegatingArrowBlockBuilder_num_rows :: "DelegatingArrowBlockBuilder \<Rightarrow> int" where
  "DelegatingArrowBlockBuilder_num_rows self =
     (case d_builder self of Some b \<Rightarrow> builder_num_rows b | None \<Rightarrow> 0)"

section \<open>Sequences of calls\<close>

text \<open>
  A producer calls \<open>add\<close> and \<open>add_block\<close> in some order; an exception ends the
  sequence, as it leaves the producer's loop.
\<close>

datatype call = Add item | AddBlock block

fun run_calls ::
    "(item \<Rightarrow> 's \<Rightarrow> (error + unit) \<times> 's) \<Rightarrow> (block \<Rightarrow> 's \<Rightarrow> (error + unit) \<times> 's) \<Rightarrow>
     call list \<Rightarrow> 's \<Rightarrow> (error + unit) \<times> 's" where
  "run_calls add add_block [] self = (Inr (), self)"
| "run_calls add add_block (c # cs) self =
     (case (case c of Add x \<Rightarrow> add x self | AddBlock blk \<Rightarrow> add_block blk self) of
        (Inl e, self1) \<Rightarrow> (Inl e, self1)
      | (Inr u, self1) \<Rightarrow> run_calls add add_block cs self1)"

definition ArrowBlockBuilder_calls ::
    "call list \<Rightarrow> ArrowBlockBuilder \<Rightarrow> (error + unit) \<times> ArrowBlockBuilder" where
  "ArrowBlockBuilder_calls = run_calls ArrowBlockBuilder_add ArrowBlockBuilder_add_block"

definition DelegatingArrowBlockBuilder_calls ::
    "call list \<Rightarrow> DelegatingArrowBlockBuilder \<Rightarrow> (error + unit) \<times> DelegatingArrowBlockBuilder" where
  "DelegatingArrowBlockBuilder_calls =
     run_calls DelegatingArrowBlockBuilder_add DelegatingArrowBlockBuilder_add_block"

section \<open>ArrowBlockAccessor\<close>

datatype ArrowBlockAccessor = ArrowBlockAccessor (a_table: table)

record Iter =
  it_cur :: int

definition Iter_init :: Iter where
  "Iter_init = \<lparr>it_cur = - 1\<rparr>"

definition Iter_next :: "ArrowBlockAccessor \<Rightarrow> Iter \<Rightarrow> (error + ArrowRow) \<times> Iter" where
  "Iter_next outer self =
     (let self1 = self\<lparr>it_cur := it_cur self + 1\<rparr> in
      if it_cur self1 < table_num_rows (a_table outer)
      then (Inr (ArrowRow (table_slice (a_table outer) (it_cur self1) 1)), self1)
      else (Inl StopIteration, self1))"

definition ArrowBlockAccessor_iter_rows :: "ArrowBlockAccessor \<Rightarrow> Iter" where
  "ArrowBlockAccessor_iter_rows self = Iter_init"

definition ArrowBlockAccessor_num_rows :: "ArrowBlockAccessor \<Rightarrow> int" where
  "ArrowBlockAccessor_num_rows self = table_num_rows (a_table self)"

text \<open>
  A \<open>for\<close> loop over the iterator: \<open>__next__\<close> is called until it raises
  \<open>StopIteration\<close>; the rows it returned are collected in order.
\<close>

function consume :: "ArrowBlockAccessor \<Rightarrow> Iter \<Rightarrow> ArrowRow list" where
  "consume outer it =
     (case Iter_next outer it of
        (Inr r, it1) \<Rightarrow> r # consume outer it1
      | (Inl e, it1) \<Rightarrow> [])"
  by pat_completeness auto
termination
  by (relation "measure (\<lambda>(outer, it). nat (table_num_rows (a_table outer) - it_cur it))")
     (auto simp: Iter_next_def Let_def split: if_splits)

declare consume.simps [simp del]

section \<open>Rows of a table and rows of a call sequence\<close>

text \<open>
  Row \<open>i\<close> of a table as a dict, column by column, and all rows in index order. They
  are what the accessor's iteration yields on a table whose columns have one length
  (lemma \<open>items_of_iter_rows\<close> below).
\<close>

definition table_row :: "table \<Rightarrow> nat \<Rightarrow> pydict" where
  "table_row t i = map (\<lambda>(k, ty, vs). (k, vs ! i)) (table_columns t)"

definition table_rows :: "table \<Rightarrow> pydict list" where
  "table_rows t = map (table_row t) [0..<nat (table_num_rows t)]"

text \<open>
  Reading a block back: every row view of the iteration is turned into its
  \<open>items()\<close>.
\<close>

definition iter_rows_items :: "ArrowBlockAccessor \<Rightarrow> (error + pydict) list" where
  "iter_rows_items acc = map ArrowRow_items (consume acc (ArrowBlockAccessor_iter_rows acc))"

text \<open>
  What a call sequence contributes: the mapping form of each item handed to \<open>add\<close>,
  in call order, and the tables handed to \<open>add_block\<close>, in call order.
\<close>

fun added_rows :: "call list \<Rightarrow> pydict list" where
  "added_rows [] = []"
| "added_rows (Add (PyDict d) # cs) = d # added_rows cs"
| "added_rows (Add (PyRow r) # cs) =
     (case as_pydict r of Inr d \<Rightarrow> d # added_rows cs | Inl e \<Rightarrow> added_rows cs)"
| "added_rows (c # cs) = added_rows cs"

fun merged_tables :: "call list \<Rightarrow> table list" where
  "merged_tables [] = []"
| "merged_tables (AddBlock (ArrowBlock t) # cs) = t # merged_tables cs"
| "merged_tables (c # cs) = merged_tables cs"

text \<open>The rows of the whole sequence, each call's rows at the position of the call.\<close>

fun rows_in_call_order :: "call list \<Rightarrow> pydict list" where
  "rows_in_call_order [] = []"
| "rows_in_call_order (Add x # cs) = added_rows [Add x] @ rows_in_call_order cs"
| "rows_in_call_order (AddBlock (ArrowBlock t) # cs) = table_rows t @ rows_in_call_order cs"
| "rows_in_call_order (c # cs) = rows_in_call_order cs"

text \<open>
  The pending columns after the dicts \<open>ds\<close>, all over the keys \<open>keys\<close>: column \<open>k\<close>
  holds the value of \<open>k\<close> in each dict, in order.
\<close>

definition cols_of :: "string list \<Rightarrow> pydict list \<Rightarrow> (string \<times> pyval list) list" where
  "cols_of keys ds = map (\<lambda>k. (k, map (\<lambda>d. the (map_of d k)) ds)) keys"

section \<open>ArrowBlockBuilder.add on an item that is no mapping\<close>

text \<open>
  Claim C4, as stated: \<open>add\<close> on an item that is neither a dict nor a row view fails
  with a \<open>TypeError\<close>-class error. It does not: on the string \<open>"x"\<close> the exception is
  not a \<open>TypeError\<close>.
\<close>

theorem C4_add_string_not_TypeError:
  "fst (ArrowBlockBuilder_add (PyOther (PyStr ''x'')) ArrowBlockBuilder_init) \<noteq> Inl TypeError"
  by (simp add: ArrowBlockBuilder_add_def)

text \<open>
  Claim C4, amended: for every item that is neither a dict nor a row view, \<open>add\<close>
  raises \<open>ValueError\<close>, and the builder (pending columns, merged tables, row count) is
  the same after the call as before.
\<close>

theorem C4_add_non_mapping_ValueError:
  "\<not> isinstance_dict x \<Longrightarrow> \<not> isinstance_ArrowRow x \<Longrightarrow>
   ArrowBlockBuilder_add x self = (Inl ValueError, self)"
  by (cases x)
     (simp_all add: ArrowBlockBuilder_add_def isinstance_dict_def isinstance_ArrowRow_def)

theorem C4_add_non_mapping_ValueError_witness:
  "\<not> isinstance_dict (PyOther (PyInt 5)) \<and> \<not> isinstance_ArrowRow (PyOther (PyInt 5)) \<and>
   ArrowBlockBuilder_add (PyOther (PyInt 5))
       \<lparr>b_columns = [(''a'', [PyInt 1])], b_tables = [], b_num_rows = 1\<rparr>
     = (Inl ValueError, \<lparr>b_columns = [(''a'', [PyInt 1])], b_tables = [], b_num_rows = 1\<rparr>)"
proof -
  have h1: "\<not> isinstance_dict (PyOther (PyInt 5))" by (simp add: isinstance_dict_def)
  have h2: "\<not> isinstance_ArrowRow (PyOther (PyInt 5))" by (simp add: isinstance_ArrowRow_def)
  show ?thesis
    by (intro conjI) (rule h1, rule h2, rule C4_add_non_mapping_ValueError [OF h1 h2])
qed

section \<open>The untouched delegating builder\<close>

text \<open>
  Claim C7: on a freshly constructed delegating builder \<open>num_rows()\<close> is 0, and
  \<open>build()\<close> returns a columnar block, the table without columns, which has no rows.
\<close>

theorem C7_fresh_delegating_builder:
  "DelegatingArrowBlockBuilder_num_rows DelegatingArrowBlockBuilder_init = 0 \<and>
   fst (DelegatingArrowBlockBuilder_build DelegatingArrowBlockBuilder_init)
     = Inr (ArrowBlock (Table [])) \<and>
   table_columns (Table []) = [] \<and>
   ArrowBlockAccessor_num_rows (ArrowBlockAccessor (Table [])) = 0 \<and>
   consume (ArrowBlockAccessor (Table [])) (ArrowBlockAccessor_iter_rows (ArrowBlockAccessor (Table []))) = []"
  by (simp add: DelegatingArrowBlockBuilder_num_rows_def DelegatingArrowBlockBuilder_init_def
      DelegatingArrowBlockBuilder_build_def ArrowBlockBuilder_build_def
      ArrowBlockBuilder_build_with_def ArrowBlockBuilder_init_def Table_from_pydict_def
      equal_lengths_def table_num_rows_def ArrowBlockAccessor_num_rows_def
      ArrowBlockAccessor_iter_rows_def Iter_init_def Iter_next_def consume.simps)

section \<open>Three rows with one column\<close>

text \<open>
  Claim C5: adding \<open>{"a": 1}\<close>, \<open>{"a": 2}\<close>, \<open>{"a": 3}\<close> in this order to a fresh
  delegating builder raises nothing, the builder counts 3 rows, and \<open>build()\<close> returns
  a columnar block with the single column \<open>a\<close> holding 1, 2, 3 in order, of 3 rows.
\<close>

theorem C5_scenario_three_rows:
  "fst (DelegatingArrowBlockBuilder_calls
          [Add (PyDict [(''a'', PyInt 1)]), Add (PyDict [(''a'', PyInt 2)]),
           Add (PyDict [(''a'', PyInt 3)])] DelegatingArrowBlockBuilder_init) = Inr () \<and>
   DelegatingArrowBlockBuilder_num_rows (snd (DelegatingArrowBlockBuilder_calls
          [Add (PyDict [(''a'', PyInt 1)]), Add (PyDict [(''a'', PyInt 2)]),
           Add (PyDict [(''a'', PyInt 3)])] DelegatingArrowBlockBuilder_init)) = 3 \<and>
   fst (DelegatingArrowBlockBuilder_build (snd (DelegatingArrowBlockBuilder_calls
          [Add (PyDict [(''a'', PyInt 1)]), Add (PyDict [(''a'', PyInt 2)]),
           Add (PyDict [(''a'', PyInt 3)])] DelegatingArrowBlockBuilder_init)))
     = Inr (ArrowBlock (Table [(''a'', Int64Type, [PyInt 1, PyInt 2, PyInt 3])])) \<and>
   table_num_rows (Table [(''a'', Int64Type, [PyInt 1, PyInt 2, PyInt 3])]) = 3 \<and>
   table_to_pydict (Table [(''a'', Int64Type, [PyInt 1, PyInt 2, PyInt 3])])
     = [(''a'', [PyInt 1, PyInt 2, PyInt 3])]"
  by (simp add: DelegatingArrowBlockBuilder_num_rows_def DelegatingArrowBlockBuilder_init_def
      DelegatingArrowBlockBuilder_build_def ArrowBlockBuilder_build_def
      ArrowBlockBuilder_build_with_def ArrowBlockBuilder_init_def Table_from_pydict_def
      equal_lengths_def table_num_rows_def DelegatingArrowBlockBuilder_calls_def
      DelegatingArrowBlockBuilder_add_def choose_builder_def trial_def
      ArrowBlockBuilder_add_def append_items_def isinstance_dict_def
      ArrowBlockBuilder_num_rows_def table_to_pydict_def)

section \<open>A builder holding exactly one table\<close>

text \<open>
  Claim C10: after exactly one \<open>add_block(table)\<close> and no \<open>add\<close>, \<open>build()\<close> returns
  that table itself, whatever the library's construction and concatenation operations
  would do (they are not called: the result is the same for every pair of operations);
  and whenever there are no pending columns and exactly one merged table, \<open>build()\<close>
  returns that table.
\<close>

theorem C10_build_single_table:
  "ArrowBlockBuilder_build_with from_pydict concat_op
     (snd (ArrowBlockBuilder_add_block (ArrowBlock t) ArrowBlockBuilder_init)) = Inr t \<and>
   (b_columns self = [] \<and> b_tables self = [t] \<longrightarrow>
      ArrowBlockBuilder_build_with from_pydict concat_op self = Inr t)"
  by (simp add: ArrowBlockBuilder_build_with_def ArrowBlockBuilder_add_block_def
      ArrowBlockBuilder_init_def)

theorem C10_build_single_table_witness:
  "ArrowBlockBuilder_build_with (\<lambda>cols. Inl TypeError) (\<lambda>ts. Inl ArrowInvalid)
     \<lparr>b_columns = [], b_tables = [Table [(''a'', Int64Type, [PyInt 1, PyInt 2])]],
      b_num_rows = 2\<rparr>
   = Inr (Table [(''a'', Int64Type, [PyInt 1, PyInt 2])])"
proof -
  let ?t = "Table [(''a'', Int64Type, [PyInt 1, PyInt 2])]"
  let ?self = "\<lparr>b_columns = [], b_tables = [?t], b_num_rows = 2\<rparr>"
  have h: "b_columns ?self = [] \<and> b_tables ?self = [?t]" by simp
  from C10_build_single_table
    [of "\<lambda>cols. Inl TypeError" "\<lambda>ts. Inl ArrowInvalid" ?t ?self]
  have "b_columns ?self = [] \<and> b_tables ?self = [?t] \<longrightarrow>
      ArrowBlockBuilder_build_with (\<lambda>cols. Inl TypeError) (\<lambda>ts. Inl ArrowInvalid) ?self
        = Inr ?t"
    by (rule conjunct2)
  then show ?thesis using h by (rule mp)
qed

section \<open>The trial of the delegating builder\<close>

text \<open>
  Claim C8: when the first item handed to a fresh delegating builder is a dict and the
  trial (a throwaway columnar builder receives the item and is built) raises an error of
  the library that the \<open>except\<close> clause names, \<open>add\<close> raises nothing, the builder holds
  a simple builder, and that simple builder holds the item and nothing else.
\<close>

theorem C8_trial_failure_falls_back:
  "trial (PyDict d) = Inl e \<Longrightarrow> caught e \<Longrightarrow>
   DelegatingArrowBlockBuilder_add (PyDict d) DelegatingArrowBlockBuilder_init
     = (Inr (), \<lparr>d_builder = Some (Simple \<lparr>s_items = [PyDict d]\<rparr>)\<rparr>)"
  by (simp add: DelegatingArrowBlockBuilder_add_def choose_builder_def isinstance_dict_def
      DelegatingArrowBlockBuilder_init_def SimpleBlockBuilder_add_def
      SimpleBlockBuilder_init_def)

theorem C8_trial_failure_falls_back_witness:
  "trial (PyDict [(''a'', PyObject 0)]) = Inl ArrowInvalid \<and>
   DelegatingArrowBlockBuilder_add (PyDict [(''a'', PyObject 0)]) DelegatingArrowBlockBuilder_init
     = (Inr (), \<lparr>d_builder = Some (Simple \<lparr>s_items = [PyDict [(''a'', PyObject 0)]]\<rparr>)\<rparr>)"
proof -
  have h1: "trial (PyDict [(''a'', PyObject 0)]) = Inl ArrowInvalid"
    by (simp add: trial_def ArrowBlockBuilder_add_def ArrowBlockBuilder_init_def
        append_items_def ArrowBlockBuilder_build_def ArrowBlockBuilder_build_with_def
        Table_from_pydict_def)
  have h2: "caught ArrowInvalid" by (simp add: caught_def)
  show ?thesis
    by (intro conjI) (rule h1, rule C8_trial_failure_falls_back [OF h1 h2])
qed

section \<open>Equality of row views\<close>

lemma dict_eq_map_of:
  "distinct (map fst d) \<Longrightarrow> distinct (map fst e) \<Longrightarrow> dict_eq d e \<longleftrightarrow> map_of d = map_of e"
  by (simp add: dict_eq_def map_of_inject_set)

text \<open>
  Claim C9: two row views whose mapping forms exist compare equal exactly when the
  mapping forms are the same mapping from key to value; the views themselves need not
  be the same object.
\<close>

theorem C9_row_views_equal_iff_mappings_equal:
  "as_pydict r1 = Inr d1 \<Longrightarrow> as_pydict r2 = Inr d2 \<Longrightarrow>
   distinct (map fst d1) \<Longrightarrow> distinct (map fst d2) \<Longrightarrow>
   ArrowRow_eq r1 (PyRow r2) = Inr (map_of d1 = map_of d2)"
  using dict_eq_map_of [of d2 d1]
  by (auto simp: ArrowRow_eq_def dict_eq_object_def)

theorem C9_row_views_equal_iff_mappings_equal_witness:
  "ArrowRow (Table [(''a'', Int64Type, [PyInt 1])])
     \<noteq> ArrowRow (Table [(''a'', Int64Type, [PyInt 1, PyInt 7])]) \<and>
   ArrowRow_eq (ArrowRow (Table [(''a'', Int64Type, [PyInt 1])]))
               (PyRow (ArrowRow (Table [(''a'', Int64Type, [PyInt 1, PyInt 7])])))
     = Inr True \<and>
   ArrowRow_eq (ArrowRow (Table [(''a'', Int64Type, [PyInt 1])]))
               (PyRow (ArrowRow (Table [(''a'', Int64Type, [PyInt 2])])))
     = Inr False"
proof -
  let ?r1 = "ArrowRow (Table [(''a'', Int64Type, [PyInt 1])])"
  let ?r2 = "ArrowRow (Table [(''a'', Int64Type, [PyInt 1, PyInt 7])])"
  let ?r3 = "ArrowRow (Table [(''a'', Int64Type, [PyInt 2])])"
  have d1: "as_pydict ?r1 = Inr [(''a'', PyInt 1)]"
    by (simp add: as_pydict_def table_to_pydict_def)
  have d2: "as_pydict ?r2 = Inr [(''a'', PyInt 1)]"
    by (simp add: as_pydict_def table_to_pydict_def)
  have d3: "as_pydict ?r3 = Inr [(''a'', PyInt 2)]"
    by (simp add: as_pydict_def table_to_pydict_def)
  have k1: "distinct (map fst [(''a'', PyInt 1)])" by simp
  have k3: "distinct (map fst [(''a'', PyInt 2)])" by simp
  have ne: "map_of [(''a'', PyInt 1)] \<noteq> map_of [(''a'', PyInt 2)]"
  proof
    assume "map_of [(''a'', PyInt 1)] = map_of [(''a'', PyInt 2)]"
    then have "map_of [(''a'', PyInt 1)] ''a'' = map_of [(''a'', PyInt 2)] ''a''" by simp
    then show False by simp
  qed
  have e12: "ArrowRow_eq ?r1 (PyRow ?r2) = Inr True"
    using C9_row_views_equal_iff_mappings_equal [OF d1 d2 k1 k1] by simp
  have e13: "ArrowRow_eq ?r1 (PyRow ?r3) = Inr False"
    using C9_row_views_equal_iff_mappings_equal [OF d1 d3 k1 k3] ne by simp
  have "?r1 \<noteq> ?r2" by simp
  then show ?thesis using e12 e13 by blast
qed

section \<open>A first item that is no dict\<close>

lemma adds_to_simple_builder:
  "d_builder self = Some (Simple sb) \<Longrightarrow>
   DelegatingArrowBlockBuilder_calls (map Add xs) self
     = (Inr (), self\<lparr>d_builder := Some (Simple (sb\<lparr>s_items := s_items sb @ xs\<rparr>))\<rparr>)"
proof (induction xs arbitrary: self sb)
  case Nil
  then show ?case by (simp add: DelegatingArrowBlockBuilder_calls_def)
next
  case (Cons x xs)
  let ?sb1 = "sb\<lparr>s_items := s_items sb @ [x]\<rparr>"
  let ?self1 = "self\<lparr>d_builder := Some (Simple ?sb1)\<rparr>"
  have step: "DelegatingArrowBlockBuilder_add x self = (Inr (), ?self1)"
    using Cons.prems
    by (simp add: DelegatingArrowBlockBuilder_add_def choose_builder_def
        SimpleBlockBuilder_add_def)
  have b1: "d_builder ?self1 = Some (Simple ?sb1)" by simp
  have "DelegatingArrowBlockBuilder_calls (map Add (x # xs)) self
          = DelegatingArrowBlockBuilder_calls (map Add xs) ?self1"
    using step by (simp add: DelegatingArrowBlockBuilder_calls_def)
  also have "\<dots> = (Inr (), ?self1\<lparr>d_builder := Some (Simple (?sb1\<lparr>s_items := s_items ?sb1 @ xs\<rparr>))\<rparr>)"
    by (rule Cons.IH [OF b1])
  finally show ?case by simp
qed

text \<open>
  Claim C3: when the first item handed to a fresh delegating builder is not a dict, no
  call of the sequence raises, and afterwards the builder holds a simple builder whose
  items are all the items of the sequence in order, dicts among the later ones
  included: the choice made at the first item stands.
\<close>

theorem C3_first_item_not_dict_selects_simple:
  "\<not> isinstance_dict x \<Longrightarrow>
   DelegatingArrowBlockBuilder_calls (map Add (x # xs)) DelegatingArrowBlockBuilder_init
     = (Inr (), \<lparr>d_builder = Some (Simple \<lparr>s_items = x # xs\<rparr>)\<rparr>)"
proof -
  assume nd: "\<not> isinstance_dict x"
  let ?self1 = "\<lparr>d_builder = Some (Simple \<lparr>s_items = [x]\<rparr>)\<rparr>"
  have first: "DelegatingArrowBlockBuilder_add x DelegatingArrowBlockBuilder_init = (Inr (), ?self1)"
    using nd
    by (simp add: DelegatingArrowBlockBuilder_add_def choose_builder_def
        DelegatingArrowBlockBuilder_init_def SimpleBlockBuilder_add_def
        SimpleBlockBuilder_init_def)
  have "DelegatingArrowBlockBuilder_calls (map Add (x # xs)) DelegatingArrowBlockBuilder_init
          = DelegatingArrowBlockBuilder_calls (map Add xs) ?self1"
    using first by (simp add: DelegatingArrowBlockBuilder_calls_def)
  also have "\<dots> = (Inr (), \<lparr>d_builder = Some (Simple \<lparr>s_items = x # xs\<rparr>)\<rparr>)"
    using adds_to_simple_builder [of ?self1 "\<lparr>s_items = [x]\<rparr>" xs] by simp
  finally show ?thesis .
qed

theorem C3_first_item_not_dict_selects_simple_witness:
  "DelegatingArrowBlockBuilder_calls
     [Add (PyOther (PyStr ''x'')), Add (PyDict [(''a'', PyInt 1)])]
     DelegatingArrowBlockBuilder_init
   = (Inr (), \<lparr>d_builder = Some (Simple
        \<lparr>s_items = [PyOther (PyStr ''x''), PyDict [(''a'', PyInt 1)]]\<rparr>)\<rparr>)"
proof -
  have h: "\<not> isinstance_dict (PyOther (PyStr ''x''))" by (simp add: isinstance_dict_def)
  show ?thesis
    using C3_first_item_not_dict_selects_simple [OF h, of "[PyDict [(''a'', PyInt 1)]]"]
    by simp
qed

section \<open>The row count of the builder and of the block it builds\<close>

text \<open>
  Claim C2 at the empty mapping: after \<open>add({})\<close> on a fresh columnar builder
  \<open>num_rows()\<close> is 1, while \<open>build()\<close> returns the table without columns, which has 0
  rows.
\<close>

theorem C2_empty_mapping_row_is_lost:
  "fst (ArrowBlockBuilder_add (PyDict []) ArrowBlockBuilder_init) = Inr () \<and>
   ArrowBlockBuilder_num_rows (snd (ArrowBlockBuilder_add (PyDict []) ArrowBlockBuilder_init)) = 1 \<and>
   ArrowBlockBuilder_build (snd (ArrowBlockBuilder_add (PyDict []) ArrowBlockBuilder_init))
     = Inr (Table []) \<and>
   ArrowBlockAccessor_num_rows (ArrowBlockAccessor (Table [])) = 0"
  by (simp add: ArrowBlockBuilder_add_def ArrowBlockBuilder_init_def append_items_def
      ArrowBlockBuilder_num_rows_def ArrowBlockBuilder_build_def
      ArrowBlockBuilder_build_with_def Table_from_pydict_def equal_lengths_def
      ArrowBlockAccessor_num_rows_def table_num_rows_def)

section \<open>The pending columns after a sequence of dicts\<close>

text \<open>
  A dict whose keys are all new adds one column per key; a dict whose keys are all
  known extends each of its columns by one value. So dicts over one set of keys leave
  the columns \<open>cols_of keys ds\<close>, in the key order of the first dict.
\<close>

lemma append_value_new:
  "key \<notin> fst ` set cols \<Longrightarrow> append_value key v cols = cols @ [(key, [v])]"
  by (induction cols) auto

lemma append_items_new:
  "distinct (map fst d) \<Longrightarrow> fst ` set d \<inter> fst ` set cols = {} \<Longrightarrow>
   append_items d cols = cols @ map (\<lambda>(k, v). (k, [v])) d"
proof (induction d arbitrary: cols)
  case Nil
  then show ?case by (simp add: append_items_def)
next
  case (Cons kv d)
  obtain k v where kv: "kv = (k, v)" by (cases kv)
  have new: "k \<notin> fst ` set cols" using Cons.prems kv by auto
  have disj: "fst ` set d \<inter> fst ` set (cols @ [(k, [v])]) = {}"
    using Cons.prems kv by force
  have "append_items (kv # d) cols = append_items d (append_value k v cols)"
    by (simp add: append_items_def kv)
  also have "\<dots> = append_items d (cols @ [(k, [v])])"
    by (simp add: append_value_new [OF new])
  also have "\<dots> = (cols @ [(k, [v])]) @ map (\<lambda>(k, v). (k, [v])) d"
    using Cons.IH [OF _ disj] Cons.prems by simp
  finally show ?case by (simp add: kv)
qed

lemma append_items_first:
  "distinct (map fst d) \<Longrightarrow> append_items d [] = cols_of (map fst d) [d]"
proof -
  assume dist: "distinct (map fst d)"
  have "append_items d [] = map (\<lambda>(k, v). (k, [v])) d"
    using append_items_new [OF dist, of "[]"] by simp
  also have "\<dots> = cols_of (map fst d) [d]"
    using dist by (auto simp: cols_of_def)
  finally show ?thesis .
qed

lemma append_value_known:
  "distinct (map fst cols) \<Longrightarrow> key \<in> fst ` set cols \<Longrightarrow>
   append_value key v cols = map (\<lambda>(k, vs). (k, if k = key then vs @ [v] else vs)) cols"
proof (induction cols)
  case Nil
  then show ?case by simp
next
  case (Cons c cols)
  obtain k vs where c: "c = (k, vs)" by (cases c)
  show ?case
  proof (cases "k = key")
    case True
    then have "key \<notin> fst ` set cols" using Cons.prems c by auto
    then have "map (\<lambda>(k, vs). (k, if k = key then vs @ [v] else vs)) cols = cols"
      by (induction cols) auto
    then show ?thesis using True c by simp
  next
    case False
    then show ?thesis using Cons c by auto
  qed
qed

lemma append_value_keys: "key \<in> fst ` set cols \<Longrightarrow> map fst (append_value key v cols) = map fst cols"
  by (induction cols) force+

lemma append_items_known:
  "distinct (map fst cols) \<Longrightarrow> distinct (map fst d) \<Longrightarrow> fst ` set d \<subseteq> fst ` set cols \<Longrightarrow>
   append_items d cols =
     map (\<lambda>(k, vs). (k, case map_of d k of Some v \<Rightarrow> vs @ [v] | None \<Rightarrow> vs)) cols"
proof (induction d arbitrary: cols)
  case Nil
  then show ?case by (simp add: append_items_def)
next
  case (Cons kv d)
  obtain k v where kv: "kv = (k, v)" by (cases kv)
  have known: "k \<in> fst ` set cols" using Cons.prems kv by auto
  have knotin: "k \<notin> fst ` set d" using Cons.prems kv by auto
  let ?cols1 = "append_value k v cols"
  have keys1: "map fst ?cols1 = map fst cols" by (rule append_value_keys [OF known])
  have dist1: "distinct (map fst ?cols1)" using keys1 Cons.prems by simp
  have sub1: "fst ` set d \<subseteq> fst ` set ?cols1"
  proof -
    have "fst ` set ?cols1 = set (map fst ?cols1)" by simp
    also have "\<dots> = fst ` set cols" by (simp add: keys1)
    finally show ?thesis using Cons.prems by auto
  qed
  have "append_items (kv # d) cols = append_items d ?cols1"
    by (simp add: append_items_def kv)
  also have "\<dots> = map (\<lambda>(k, vs). (k, case map_of d k of Some v \<Rightarrow> vs @ [v] | None \<Rightarrow> vs)) ?cols1"
    using Cons.IH [OF dist1 _ sub1] Cons.prems by simp
  also have "\<dots> = map (\<lambda>(k, vs). (k, case map_of (kv # d) k of Some v \<Rightarrow> vs @ [v] | None \<Rightarrow> vs)) cols"
  proof -
    have "map_of d k = None" using knotin by (simp add: map_of_eq_None_iff)
    then show ?thesis
      by (auto simp: append_value_known [OF Cons.prems(1) known] kv)
  qed
  finally show ?case .
qed

lemma append_items_cols_of:
  assumes "distinct keys" "distinct (map fst d)" "set (map fst d) = set keys"
  shows "append_items d (cols_of keys ds) = cols_of keys (ds @ [d])"
proof -
  have k: "map fst (cols_of keys ds) = keys" by (simp add: cols_of_def comp_def)
  have "append_items d (cols_of keys ds) =
     map (\<lambda>(k, vs). (k, case map_of d k of Some v \<Rightarrow> vs @ [v] | None \<Rightarrow> vs)) (cols_of keys ds)"
  proof (rule append_items_known)
    show "distinct (map fst (cols_of keys ds))" using assms k by simp
    show "distinct (map fst d)" by fact
    have "fst ` set (cols_of keys ds) = set keys" using k by (metis set_map)
    then show "fst ` set d \<subseteq> fst ` set (cols_of keys ds)" using assms(3) by simp
  qed
  also have "\<dots> = cols_of keys (ds @ [d])"
  proof -
    have "\<And>k. k \<in> set keys \<Longrightarrow> \<exists>v. map_of d k = Some v"
      using assms(3) by (metis map_of_eq_None_iff not_Some_eq set_map)
    then show ?thesis by (fastforce simp: cols_of_def split: option.splits)
  qed
  finally show ?thesis .
qed

lemma fold_append_items_cols_of:
  assumes "distinct keys" "\<forall>d\<in>set ds. distinct (map fst d) \<and> set (map fst d) = set keys"
  shows "foldl (\<lambda>c d. append_items d c) (cols_of keys ds0) ds = cols_of keys (ds0 @ ds)"
  using assms(2)
proof (induction ds arbitrary: ds0)
  case Nil
  then show ?case by simp
next
  case (Cons d ds)
  have "append_items d (cols_of keys ds0) = cols_of keys (ds0 @ [d])"
    using append_items_cols_of [OF assms(1)] Cons.prems by simp
  then show ?case using Cons.IH [of "ds0 @ [d]"] Cons.prems by simp
qed


section \<open>Rows of the tables the library returns\<close>

lemma make_arrays_cols:
  "make_arrays cols = Some cs \<Longrightarrow> map (\<lambda>(k, ty, vs). (k, vs)) cs = cols"
  by (induction cols arbitrary: cs) (auto split: option.splits)

lemma from_pydict_result:
  assumes "Table_from_pydict cols = Inr t"
  shows "table_to_pydict t = cols" and "equal_lengths (table_columns t)"
  using assms
  by (auto simp: Table_from_pydict_def table_to_pydict_def make_arrays_cols
           split: option.splits if_splits)

lemma table_row_to_pydict:
  "table_row t i = map (\<lambda>(k, vs). (k, vs ! i)) (table_to_pydict t)"
  by (simp add: table_row_def table_to_pydict_def comp_def case_prod_unfold)

lemma table_num_rows_to_pydict:
  "table_num_rows t = (case table_to_pydict t of [] \<Rightarrow> 0 | (k, vs) # rest \<Rightarrow> int (length vs))"
  by (auto simp: table_num_rows_def table_to_pydict_def split: list.splits)

lemma length_table_rows: "int (length (table_rows t)) = table_num_rows t"
  by (auto simp: table_rows_def table_num_rows_def split: list.splits)

lemma dict_row_eq:
  assumes "distinct (map fst d)" "set (map fst d) = set keys"
  shows "dict_eq (map (\<lambda>k. (k, the (map_of d k))) keys) d"
proof -
  have "set (map (\<lambda>k. (k, the (map_of d k))) keys) = set d"
  proof (rule set_eqI)
    fix p :: "string \<times> pyval"
    obtain k v where p: "p = (k, v)" by (cases p)
    show "p \<in> set (map (\<lambda>k. (k, the (map_of d k))) keys) \<longleftrightarrow> p \<in> set d"
    proof
      assume "p \<in> set (map (\<lambda>k. (k, the (map_of d k))) keys)"
      then have kk: "k \<in> set keys" and v: "v = the (map_of d k)" using p by auto
      from kk assms(2) have "k \<in> fst ` set d" by simp
      then obtain w where "map_of d k = Some w"
        by (metis map_of_eq_None_iff not_Some_eq)
      then show "p \<in> set d" using v p by (simp add: map_of_SomeD)
    next
      assume "p \<in> set d"
      then have "map_of d k = Some v" using assms(1) p by simp
      moreover have "k \<in> set keys" using \<open>p \<in> set d\<close> p assms(2) by force
      ultimately show "p \<in> set (map (\<lambda>k. (k, the (map_of d k))) keys)" using p by force
    qed
  qed
  then show ?thesis by (simp add: dict_eq_def)
qed

lemma rows_of_cols_of:
  assumes t: "table_to_pydict t = cols_of keys ds" and ne: "keys \<noteq> []"
    and ok: "\<forall>d\<in>set ds. distinct (map fst d) \<and> set (map fst d) = set keys"
  shows "list_all2 dict_eq (table_rows t) ds"
proof -
  obtain k ks where keys: "keys = k # ks" using ne by (cases keys) auto
  have n: "table_num_rows t = int (length ds)"
    by (simp add: table_num_rows_to_pydict t cols_of_def keys)
  have row: "table_row t i = map (\<lambda>k. (k, the (map_of (ds ! i) k))) keys" if "i < length ds" for i
    using that by (simp add: table_row_to_pydict t cols_of_def comp_def)
  show ?thesis
  proof (rule list_all2_all_nthI)
    show "length (table_rows t) = length ds" using n by (simp add: table_rows_def)
  next
    fix i assume "i < length (table_rows t)"
    then have i: "i < length ds" using n by (simp add: table_rows_def)
    have "table_rows t ! i = table_row t i" using i n by (simp add: table_rows_def)
    also have "\<dots> = map (\<lambda>k. (k, the (map_of (ds ! i) k))) keys" by (rule row [OF i])
    finally show "dict_eq (table_rows t ! i) (ds ! i)"
      using dict_row_eq [of "ds ! i" keys] ok i by simp
  qed
qed



text \<open>Concatenation puts the rows of the second table after those of the first.\<close>

lemma same_schema_zip:
  "map (\<lambda>(k, ty, vs). (k, ty)) cs = map (\<lambda>(k, ty, vs). (k, ty)) ds \<Longrightarrow>
   map (\<lambda>(k, ty, vs). (k, ty)) (append_columns cs ds) = map (\<lambda>(k, ty, vs). (k, ty)) cs"
  by (induction cs arbitrary: ds) (auto simp: append_columns_def)

lemma append_columns_row:
  assumes "map (\<lambda>(k, ty, vs). (k, ty)) cs = map (\<lambda>(k, ty, vs). (k, ty)) ds"
    and "\<forall>c\<in>set cs. length (snd (snd c)) = n1"
  shows "map (\<lambda>(k, ty, vs). (k, vs ! i)) (append_columns cs ds) =
     (if i < n1 then map (\<lambda>(k, ty, vs). (k, vs ! i)) cs
      else map (\<lambda>(k, ty, vs). (k, vs ! (i - n1))) ds)"
  using assms
  by (induction cs arbitrary: ds) (auto simp: append_columns_def nth_append)

lemma append_columns_lengths:
  assumes "\<forall>c\<in>set cs. length (snd (snd c)) = n1"
    and "\<forall>c\<in>set ds. length (snd (snd c)) = n2"
  shows "\<forall>c\<in>set (append_columns cs ds). length (snd (snd c)) = n1 + n2"
proof
  fix c assume "c \<in> set (append_columns cs ds)"
  then obtain a b where ab: "(a, b) \<in> set (zip cs ds)"
    and c: "c = (fst a, fst (snd a), snd (snd a) @ snd (snd b))"
    by (auto simp: append_columns_def)
  have "a \<in> set cs" "b \<in> set ds" using ab by (auto dest: set_zip_leftD set_zip_rightD)
  then show "length (snd (snd c)) = n1 + n2" using assms c by simp
qed

lemma equal_lengths_iff:
  "equal_lengths cs \<longleftrightarrow> (\<forall>c\<in>set cs. length (snd (snd c)) = nat (table_num_rows (Table cs)))"
  by (cases cs) (auto simp: equal_lengths_def table_num_rows_def list_all_iff)

lemma append_columns_rows:
  assumes sch: "table_schema (Table ds) = table_schema (Table cs)"
    and l1: "equal_lengths cs" and l2: "equal_lengths ds"
  shows "table_rows (Table (append_columns cs ds)) = table_rows (Table cs) @ table_rows (Table ds)"
    and "equal_lengths (append_columns cs ds)"
    and "table_schema (Table (append_columns cs ds)) = table_schema (Table cs)"
proof -
  let ?n1 = "nat (table_num_rows (Table cs))" and ?n2 = "nat (table_num_rows (Table ds))"
  let ?r = "append_columns cs ds"
  have sch': "map (\<lambda>(k, ty, vs). (k, ty)) cs = map (\<lambda>(k, ty, vs). (k, ty)) ds"
    using sch by (simp add: table_schema_def)
  have len: "length cs = length ds" using sch' by (rule map_eq_imp_length_eq)
  have c1: "\<forall>c\<in>set cs. length (snd (snd c)) = ?n1"
    using l1 by (simp add: equal_lengths_iff)
  have c2: "\<forall>c\<in>set ds. length (snd (snd c)) = ?n2"
    using l2 by (simp add: equal_lengths_iff)
  have c3: "\<forall>c\<in>set ?r. length (snd (snd c)) = ?n1 + ?n2"
    by (rule append_columns_lengths [OF c1 c2])
  have n: "nat (table_num_rows (Table ?r)) = ?n1 + ?n2"
  proof (cases cs)
    case Nil
    then have "ds = []" using len by simp
    then show ?thesis using Nil by (simp add: append_columns_def table_num_rows_def)
  next
    case (Cons c cs')
    then obtain d ds' where ds: "ds = d # ds'" using len by (cases ds) auto
    obtain k ty vs where c: "c = (k, ty, vs)" by (cases c)
    obtain k' ty' ws where d: "d = (k', ty', ws)" by (cases d)
    show ?thesis by (simp add: Cons ds c d append_columns_def table_num_rows_def)
  qed
  show "equal_lengths ?r"
    using c3 n by (simp add: equal_lengths_iff)
  show "table_schema (Table ?r) = table_schema (Table cs)"
    using same_schema_zip [OF sch'] by (simp add: table_schema_def)
  have row: "table_row (Table ?r) i =
      (if i < ?n1 then table_row (Table cs) i else table_row (Table ds) (i - ?n1))" for i
    using append_columns_row [OF sch' c1, of i] by (simp add: table_row_def)
  show "table_rows (Table ?r) = table_rows (Table cs) @ table_rows (Table ds)"
  proof (rule nth_equalityI)
    show "length (table_rows (Table ?r)) = length (table_rows (Table cs) @ table_rows (Table ds))"
      using n by (simp add: table_rows_def)
  next
    fix i assume "i < length (table_rows (Table ?r))"
    then have i: "i < ?n1 + ?n2" using n by (simp add: table_rows_def)
    show "table_rows (Table ?r) ! i = (table_rows (Table cs) @ table_rows (Table ds)) ! i"
    proof (cases "i < ?n1")
      case True
      then show ?thesis using i n row [of i] by (simp add: table_rows_def nth_append)
    next
      case False
      then have "i - ?n1 < ?n2" using i by arith
      then show ?thesis using False i n row [of i] by (simp add: table_rows_def nth_append)
    qed
  qed
qed

lemma foldl_append_columns:
  assumes "\<forall>u\<in>set ts. table_schema u = table_schema (Table cs) \<and> equal_lengths (table_columns u)"
    and "equal_lengths cs"
  shows "table_rows (Table (foldl append_columns cs (map table_columns ts)))
           = table_rows (Table cs) @ concat (map table_rows ts) \<and>
         equal_lengths (foldl append_columns cs (map table_columns ts))"
  using assms
proof (induction ts arbitrary: cs)
  case Nil
  then show ?case by simp
next
  case (Cons u ts)
  obtain ds where u: "u = Table ds" by (cases u)
  have sch: "table_schema (Table ds) = table_schema (Table cs)" using Cons.prems u by simp
  have l2: "equal_lengths ds" using Cons.prems u by simp
  note step = append_columns_rows [OF sch Cons.prems(2) l2]
  have rest: "\<forall>w\<in>set ts. table_schema w = table_schema (Table (append_columns cs ds)) \<and>
      equal_lengths (table_columns w)"
    using Cons.prems(1) step(3) by simp
  show ?case using Cons.IH [OF rest step(2)] step(1) u by simp
qed

lemma concat_tables_rows:
  assumes "concat_tables ts = Inr t" and "\<forall>u\<in>set ts. equal_lengths (table_columns u)"
  shows "table_rows t = concat (map table_rows ts)" and "equal_lengths (table_columns t)"
proof -
  obtain u us where ts: "ts = u # us" using assms(1) by (cases ts) auto
  obtain cs where u: "u = Table cs" by (cases u)
  have sch: "\<forall>w\<in>set us. table_schema w = table_schema (Table cs)"
    using assms(1) by (auto simp: ts u list_all_iff split: if_splits)
  have t: "t = Table (foldl append_columns cs (map table_columns us))"
    using assms(1) by (auto simp: ts u split: if_splits)
  have "\<forall>w\<in>set us. table_schema w = table_schema (Table cs) \<and> equal_lengths (table_columns w)"
    using sch assms(2) ts by simp
  moreover have "equal_lengths cs" using assms(2) ts u by simp
  ultimately have r: "table_rows t = table_rows (Table cs) @ concat (map table_rows us) \<and>
         equal_lengths (table_columns t)"
    using foldl_append_columns [of us cs] t by simp
  show "table_rows t = concat (map table_rows ts)" using r by (simp add: ts u)
  show "equal_lengths (table_columns t)" using r by simp
qed



section \<open>The builder after a sequence of calls\<close>

text \<open>
  When no call raised, the pending columns hold the added mappings in call order, the
  table list holds the merged tables in call order, and the counter is the number of
  \<open>add\<close> calls plus the row counts of the merged tables.
\<close>

lemma calls_state:
  "ArrowBlockBuilder_calls calls b0 = (Inr (), b) \<Longrightarrow>
   b_columns b = foldl (\<lambda>c d. append_items d c) (b_columns b0) (added_rows calls) \<and>
   b_tables b = b_tables b0 @ merged_tables calls \<and>
   b_num_rows b = b_num_rows b0 + int (length (added_rows calls))
                    + sum_list (map table_num_rows (merged_tables calls))"
proof (induction calls arbitrary: b0)
  case Nil
  then show ?case by (simp add: ArrowBlockBuilder_calls_def)
next
  case (Cons c calls)
  show ?case
  proof (cases c)
    case (Add x)
    show ?thesis
    proof (cases x)
      case (PyDict d)
      let ?b1 = "b0\<lparr>b_columns := append_items d (b_columns b0), b_num_rows := b_num_rows b0 + 1\<rparr>"
      have "ArrowBlockBuilder_calls calls ?b1 = (Inr (), b)"
        using Cons.prems by (simp add: ArrowBlockBuilder_calls_def Add PyDict ArrowBlockBuilder_add_def)
      from Cons.IH [OF this] show ?thesis by (simp add: Add PyDict)
    next
      case (PyRow r)
      show ?thesis
      proof (cases "as_pydict r")
        case (Inl e)
        then show ?thesis
          using Cons.prems by (simp add: ArrowBlockBuilder_calls_def Add PyRow ArrowBlockBuilder_add_def)
      next
        case (Inr d)
        let ?b1 = "b0\<lparr>b_columns := append_items d (b_columns b0), b_num_rows := b_num_rows b0 + 1\<rparr>"
        have "ArrowBlockBuilder_calls calls ?b1 = (Inr (), b)"
          using Cons.prems Inr
          by (simp add: ArrowBlockBuilder_calls_def Add PyRow ArrowBlockBuilder_add_def)
        from Cons.IH [OF this] show ?thesis by (simp add: Add PyRow Inr)
      qed
    next
      case (PyOther v)
      then show ?thesis
        using Cons.prems by (simp add: ArrowBlockBuilder_calls_def Add ArrowBlockBuilder_add_def)
    qed
  next
    case (AddBlock blk)
    show ?thesis
    proof (cases blk)
      case (ArrowBlock t)
      let ?b1 = "b0\<lparr>b_tables := b_tables b0 @ [t], b_num_rows := b_num_rows b0 + table_num_rows t\<rparr>"
      have "ArrowBlockBuilder_calls calls ?b1 = (Inr (), b)"
        using Cons.prems
        by (simp add: ArrowBlockBuilder_calls_def AddBlock ArrowBlock ArrowBlockBuilder_add_block_def)
      from Cons.IH [OF this] show ?thesis by (simp add: AddBlock ArrowBlock)
    next
      case (SimpleBlock xs)
      then show ?thesis
        using Cons.prems
        by (simp add: ArrowBlockBuilder_calls_def AddBlock ArrowBlockBuilder_add_block_def)
    qed
  qed
qed

section \<open>Iterating over a table\<close>

lemma first_values_slice:
  "\<forall>c\<in>set cs. i < length (snd (snd c)) \<Longrightarrow>
   first_values (map (\<lambda>(k, ty, vs). (k, vs))
       (map (\<lambda>(k, ty, vs). (k, ty, take (nat 1) (drop i vs))) cs))
     = Inr (map (\<lambda>(k, ty, vs). (k, vs ! i)) cs)"
proof (induction cs)
  case Nil
  then show ?case by simp
next
  case (Cons c cs)
  obtain k ty vs where c: "c = (k, ty, vs)" by (cases c)
  have "i < length vs" using Cons.prems c by simp
  then have "drop i vs = vs ! i # drop (Suc i) vs" by (simp add: Cons_nth_drop_Suc)
  then show ?case using Cons c by simp
qed

lemma as_pydict_slice:
  assumes "equal_lengths (table_columns t)" "int i < table_num_rows t"
  shows "as_pydict (ArrowRow (table_slice t (int i) 1)) = Inr (table_row t i)"
proof -
  have "\<forall>c\<in>set (table_columns t). i < length (snd (snd c))"
    using assms by (cases t) (auto simp: equal_lengths_iff)
  from first_values_slice [OF this] show ?thesis
    by (simp add: as_pydict_def table_slice_def table_to_pydict_def table_row_def)
qed

lemma consume_rows:
  "- 1 \<le> it_cur it \<Longrightarrow>
   consume acc it = map (\<lambda>i. ArrowRow (table_slice (a_table acc) (int i) 1))
                      [nat (it_cur it + 1)..<nat (table_num_rows (a_table acc))]"
proof (induction acc it rule: consume.induct)
  case (1 outer it)
  let ?n = "table_num_rows (a_table outer)"
  let ?it1 = "it\<lparr>it_cur := it_cur it + 1\<rparr>"
  show ?case
  proof (cases "it_cur it + 1 < ?n")
    case True
    have nx: "Iter_next outer it
        = (Inr (ArrowRow (table_slice (a_table outer) (it_cur it + 1) 1)), ?it1)"
      using True by (simp add: Iter_next_def)
    have IH: "consume outer ?it1 = map (\<lambda>i. ArrowRow (table_slice (a_table outer) (int i) 1))
                      [nat (it_cur ?it1 + 1)..<nat ?n]"
      using "1.IH" [OF nx [symmetric] refl] "1.prems" by simp
    have suc: "Suc (nat (it_cur it + 1)) = nat (it_cur ?it1 + 1)"
      using "1.prems" by simp
    have "nat (it_cur it + 1) < nat ?n" using True "1.prems" by arith
    then have "[nat (it_cur it + 1)..<nat ?n]
        = nat (it_cur it + 1) # [Suc (nat (it_cur it + 1))..<nat ?n]"
      by (rule upt_conv_Cons)
    then have upt: "[nat (it_cur it + 1)..<nat ?n]
        = nat (it_cur it + 1) # [nat (it_cur ?it1 + 1)..<nat ?n]"
      by (simp only: suc)
    have "consume outer it = ArrowRow (table_slice (a_table outer) (it_cur it + 1) 1) # consume outer ?it1"
      by (subst consume.simps) (simp add: nx)
    then show ?thesis using IH upt "1.prems" by simp
  next
    case False
    have "Iter_next outer it = (Inl StopIteration, ?it1)"
      using False by (simp add: Iter_next_def)
    then have "consume outer it = []" by (subst consume.simps) simp
    then show ?thesis using False by simp
  qed
qed


lemma iter_rows_views:
  "consume (ArrowBlockAccessor t) (ArrowBlockAccessor_iter_rows (ArrowBlockAccessor t))
     = map (\<lambda>i. ArrowRow (table_slice t (int i) 1)) [0..<nat (table_num_rows t)]"
  using consume_rows [of Iter_init "ArrowBlockAccessor t"]
  by (simp add: ArrowBlockAccessor_iter_rows_def Iter_init_def)

lemma items_of_iter_rows:
  assumes "equal_lengths (table_columns t)"
  shows "iter_rows_items (ArrowBlockAccessor t) = map Inr (table_rows t)"
proof -
  have "iter_rows_items (ArrowBlockAccessor t)
      = map (\<lambda>i. as_pydict (ArrowRow (table_slice t (int i) 1))) [0..<nat (table_num_rows t)]"
    by (simp add: iter_rows_items_def iter_rows_views ArrowRow_items_def comp_def)
  also have "\<dots> = map (\<lambda>i. Inr (table_row t i)) [0..<nat (table_num_rows t)]"
  proof (rule map_cong [OF refl])
    fix i assume "i \<in> set [0..<nat (table_num_rows t)]"
    then have "int i < table_num_rows t" by simp
    then show "as_pydict (ArrowRow (table_slice t (int i) 1)) = Inr (table_row t i)"
      by (rule as_pydict_slice [OF assms])
  qed
  finally show ?thesis by (simp add: table_rows_def comp_def)
qed

section \<open>The rows of the built block\<close>

lemma length_concat_table_rows:
  "int (length (concat (map table_rows us))) = sum_list (map table_num_rows us)"
  by (induction us) (simp_all add: length_table_rows)

lemma columns_of_added_rows:
  assumes "\<forall>d\<in>set (d0 # ds). distinct (map fst d) \<and> set (map fst d) = K"
  shows "foldl (\<lambda>c d. append_items d c) [] (d0 # ds) = cols_of (map fst d0) (d0 # ds)"
proof -
  have d0: "distinct (map fst d0)" and K: "set (map fst d0) = K" using assms by simp_all
  have rest: "\<forall>d\<in>set ds. distinct (map fst d) \<and> set (map fst d) = set (map fst d0)"
    using assms K by simp
  have "foldl (\<lambda>c d. append_items d c) [] (d0 # ds)
          = foldl (\<lambda>c d. append_items d c) (cols_of (map fst d0) [d0]) ds"
    by (simp add: append_items_first [OF d0])
  also have "\<dots> = cols_of (map fst d0) ([d0] @ ds)"
    by (rule fold_append_items_cols_of [OF d0 rest])
  finally show ?thesis by simp
qed

lemma list_all2_dict_eq_refl: "list_all2 dict_eq rs rs"
  by (simp add: list_all2_same dict_eq_def)

lemma build_rows:
  assumes run: "ArrowBlockBuilder_calls calls ArrowBlockBuilder_init = (Inr (), b)"
    and build: "ArrowBlockBuilder_build b = Inr t"
    and rows: "\<forall>d\<in>set (added_rows calls). distinct (map fst d) \<and> set (map fst d) = K"
    and K: "K \<noteq> {}"
    and ok: "\<forall>u\<in>set (merged_tables calls). equal_lengths (table_columns u)"
  shows "list_all2 dict_eq (table_rows t)
           (added_rows calls @ concat (map table_rows (merged_tables calls)))"
    and "equal_lengths (table_columns t)"
proof -
  let ?ds = "added_rows calls" and ?us = "merged_tables calls"
  from calls_state [OF run]
  have cols: "b_columns b = foldl (\<lambda>c d. append_items d c) [] ?ds"
    and tabs: "b_tables b = ?us"
    by (simp_all add: ArrowBlockBuilder_init_def)
  have goal: "list_all2 dict_eq (table_rows t) (?ds @ concat (map table_rows ?us)) \<and>
      equal_lengths (table_columns t)"
  proof (cases ?ds)
    case Nil
    then have c0: "b_columns b = []" using cols by simp
    show ?thesis
    proof (cases "length ?us > 1")
      case True
      then have "concat_tables ?us = Inr t"
        using build by (simp add: ArrowBlockBuilder_build_def ArrowBlockBuilder_build_with_def c0 tabs)
      from concat_tables_rows [OF this ok] show ?thesis
        using Nil by (simp add: list_all2_dict_eq_refl)
    next
      case False
      show ?thesis
      proof (cases ?us)
        case Nil2: Nil
        then have "t = Table []"
          using build
          by (simp add: ArrowBlockBuilder_build_def ArrowBlockBuilder_build_with_def c0 tabs
              Table_from_pydict_def equal_lengths_def)
        then show ?thesis
          using Nil Nil2 by (simp add: table_rows_def table_num_rows_def equal_lengths_def)
      next
        case (Cons u us)
        then have us: "?us = [u]" using False by simp
        then have "t = u"
          using build by (simp add: ArrowBlockBuilder_build_def ArrowBlockBuilder_build_with_def c0 tabs)
        then show ?thesis using Nil us ok by (simp add: list_all2_dict_eq_refl)
      qed
    qed
  next
    case (Cons d0 ds)
    let ?keys = "map fst d0"
    have all: "\<forall>d\<in>set (d0 # ds). distinct (map fst d) \<and> set (map fst d) = K"
      using rows Cons by simp
    have c1: "b_columns b = cols_of ?keys ?ds"
      using cols columns_of_added_rows [OF all] Cons by simp
    have keysK: "set ?keys = K" using all by simp
    then have ne: "?keys \<noteq> []" using K by auto
    then have cne: "b_columns b \<noteq> []" using c1 by (simp add: cols_of_def)
    obtain t0 where t0: "Table_from_pydict (b_columns b) = Inr t0"
      using build cne
      by (cases "Table_from_pydict (b_columns b)")
         (simp_all add: ArrowBlockBuilder_build_def ArrowBlockBuilder_build_with_def)
    have pd: "table_to_pydict t0 = cols_of ?keys ?ds"
      using from_pydict_result(1) [OF t0] c1 by simp
    have l0: "equal_lengths (table_columns t0)" by (rule from_pydict_result(2) [OF t0])
    have okds: "\<forall>d\<in>set ?ds. distinct (map fst d) \<and> set (map fst d) = set ?keys"
      using rows keysK by simp
    have r0: "list_all2 dict_eq (table_rows t0) ?ds"
      by (rule rows_of_cols_of [OF pd ne okds])
    show ?thesis
    proof (cases "?us = []")
      case True
      then have "t = t0"
        using build cne t0
        by (simp add: ArrowBlockBuilder_build_def ArrowBlockBuilder_build_with_def tabs)
      then show ?thesis using r0 l0 True by simp
    next
      case False
      then have "length ([t0] @ ?us) > 1" by (cases ?us) simp_all
      then have ct: "concat_tables (t0 # ?us) = Inr t"
        using build cne t0
        by (simp add: ArrowBlockBuilder_build_def ArrowBlockBuilder_build_with_def tabs)
      have "\<forall>u\<in>set (t0 # ?us). equal_lengths (table_columns u)" using l0 ok by simp
      from concat_tables_rows [OF ct this]
      have "table_rows t = table_rows t0 @ concat (map table_rows ?us)"
        and lt: "equal_lengths (table_columns t)" by simp_all
      then show ?thesis
        using r0 by (simp add: list_all2_appendI list_all2_dict_eq_refl)
    qed
  qed
  show "list_all2 dict_eq (table_rows t)
           (added_rows calls @ concat (map table_rows (merged_tables calls)))"
    using goal by simp
  show "equal_lengths (table_columns t)" using goal by simp
qed


lemma adds_of_dicts:
  "fst (ArrowBlockBuilder_calls (map (\<lambda>d. Add (PyDict d)) ds) b0) = Inr ()"
  "added_rows (map (\<lambda>d. Add (PyDict d)) ds) = ds"
  "merged_tables (map (\<lambda>d. Add (PyDict d)) ds) = []"
  by (induction ds arbitrary: b0)
     (simp_all add: ArrowBlockBuilder_calls_def ArrowBlockBuilder_add_def)

text \<open>
  Claim C1, as stated: the built block holds the rows in the order of the calls. It
  does not: after \<open>add_block\<close> of a table with the row \<open>{"a": 1}\<close> followed by
  \<open>add({"a": 2})\<close>, the block read back is \<open>{"a": 2}\<close>, \<open>{"a": 1}\<close>, while the call
  order is \<open>{"a": 1}\<close>, \<open>{"a": 2}\<close>.
\<close>

theorem C1_call_order_counterexample:
  "fst (ArrowBlockBuilder_calls
          [AddBlock (ArrowBlock (Table [(''a'', Int64Type, [PyInt 1])])),
           Add (PyDict [(''a'', PyInt 2)])] ArrowBlockBuilder_init) = Inr () \<and>
   ArrowBlockBuilder_build (snd (ArrowBlockBuilder_calls
          [AddBlock (ArrowBlock (Table [(''a'', Int64Type, [PyInt 1])])),
           Add (PyDict [(''a'', PyInt 2)])] ArrowBlockBuilder_init))
     = Inr (Table [(''a'', Int64Type, [PyInt 2, PyInt 1])]) \<and>
   iter_rows_items (ArrowBlockAccessor (Table [(''a'', Int64Type, [PyInt 2, PyInt 1])]))
     = [Inr [(''a'', PyInt 2)], Inr [(''a'', PyInt 1)]] \<and>
   rows_in_call_order
          [AddBlock (ArrowBlock (Table [(''a'', Int64Type, [PyInt 1])])),
           Add (PyDict [(''a'', PyInt 2)])]
     = [[(''a'', PyInt 1)], [(''a'', PyInt 2)]] \<and>
   \<not> list_all2 dict_eq [[(''a'', PyInt 2)], [(''a'', PyInt 1)]]
         (rows_in_call_order
            [AddBlock (ArrowBlock (Table [(''a'', Int64Type, [PyInt 1])])),
             Add (PyDict [(''a'', PyInt 2)])])"
proof -
  let ?t = "Table [(''a'', Int64Type, [PyInt 2, PyInt 1])]"
  have rows: "table_rows ?t = [[(''a'', PyInt 2)], [(''a'', PyInt 1)]]"
    by code_simp
  have "equal_lengths (table_columns ?t)" by (simp add: equal_lengths_def)
  then have items: "iter_rows_items (ArrowBlockAccessor ?t)
      = [Inr [(''a'', PyInt 2)], Inr [(''a'', PyInt 1)]]"
    by (simp add: items_of_iter_rows rows)
  show ?thesis
    by (simp add: items)
       (simp add: ArrowBlockBuilder_calls_def ArrowBlockBuilder_add_def
          ArrowBlockBuilder_add_block_def ArrowBlockBuilder_init_def append_items_def
          ArrowBlockBuilder_build_def ArrowBlockBuilder_build_with_def Table_from_pydict_def
          equal_lengths_def table_schema_def append_columns_def table_num_rows_def
          table_rows_def table_row_def dict_eq_def)
qed

text \<open>
  Claim C1, amended: let a sequence of \<open>add\<close> and \<open>add_block\<close> calls on a fresh
  columnar builder raise nothing, the added mappings have one non-empty set of keys,
  the merged tables have columns of one length each, and \<open>build()\<close> return a block.
  Then the block read back row by row holds first the rows contributed by \<open>add\<close>, in
  call order, then the rows of the merged tables, in call order, however the calls were
  interleaved; and its row count is the number of added rows plus the row counts of the
  merged tables, which is also the builder's \<open>num_rows()\<close>.
\<close>

theorem C1_added_rows_then_merged_blocks:
  assumes run: "ArrowBlockBuilder_calls calls ArrowBlockBuilder_init = (Inr (), b)"
    and build: "ArrowBlockBuilder_build b = Inr t"
    and rows: "\<forall>d\<in>set (added_rows calls). distinct (map fst d) \<and> set (map fst d) = K"
    and K: "K \<noteq> {}"
    and ok: "\<forall>u\<in>set (merged_tables calls). equal_lengths (table_columns u)"
  shows "iter_rows_items (ArrowBlockAccessor t) = map Inr (table_rows t) \<and>
         list_all2 dict_eq (table_rows t)
           (added_rows calls @ concat (map table_rows (merged_tables calls))) \<and>
         ArrowBlockAccessor_num_rows (ArrowBlockAccessor t)
           = int (length (added_rows calls))
               + sum_list (map table_num_rows (merged_tables calls)) \<and>
         ArrowBlockBuilder_num_rows b = ArrowBlockAccessor_num_rows (ArrowBlockAccessor t)"
proof -
  note r = build_rows [OF run build rows K ok]
  have n: "table_num_rows t = int (length (added_rows calls))
               + sum_list (map table_num_rows (merged_tables calls))"
  proof -
    have "table_num_rows t = int (length (table_rows t))" by (simp add: length_table_rows)
    also have "\<dots> = int (length (added_rows calls @ concat (map table_rows (merged_tables calls))))"
      using list_all2_lengthD [OF r(1)] by simp
    also have "\<dots> = int (length (added_rows calls))
               + sum_list (map table_num_rows (merged_tables calls))"
      using length_concat_table_rows [of "merged_tables calls"] by simp
    finally show ?thesis .
  qed
  have b: "b_num_rows b = int (length (added_rows calls))
               + sum_list (map table_num_rows (merged_tables calls))"
    using calls_state [OF run] by (simp add: ArrowBlockBuilder_init_def)
  show ?thesis
    using r n b items_of_iter_rows [OF r(2)]
    by (simp add: ArrowBlockAccessor_num_rows_def ArrowBlockBuilder_num_rows_def)
qed

theorem C1_added_rows_then_merged_blocks_witness:
  "list_all2 dict_eq
     (table_rows (Table [(''a'', Int64Type, [PyInt 2, PyInt 4, PyInt 1, PyInt 3])]))
     [[(''a'', PyInt 2)], [(''a'', PyInt 4)], [(''a'', PyInt 1)], [(''a'', PyInt 3)]] \<and>
   ArrowBlockAccessor_num_rows
     (ArrowBlockAccessor (Table [(''a'', Int64Type, [PyInt 2, PyInt 4, PyInt 1, PyInt 3])])) = 4"
proof -
  let ?t1 = "Table [(''a'', Int64Type, [PyInt 1])]"
  let ?t3 = "Table [(''a'', Int64Type, [PyInt 3])]"
  let ?calls = "[AddBlock (ArrowBlock ?t1), Add (PyDict [(''a'', PyInt 2)]),
                 AddBlock (ArrowBlock ?t3), Add (PyDict [(''a'', PyInt 4)])]"
  let ?b = "\<lparr>b_columns = [(''a'', [PyInt 2, PyInt 4])], b_tables = [?t1, ?t3], b_num_rows = 4\<rparr>"
  let ?t = "Table [(''a'', Int64Type, [PyInt 2, PyInt 4, PyInt 1, PyInt 3])]"
  have run: "ArrowBlockBuilder_calls ?calls ArrowBlockBuilder_init = (Inr (), ?b)"
    by (simp add: ArrowBlockBuilder_calls_def ArrowBlockBuilder_add_def
        ArrowBlockBuilder_add_block_def ArrowBlockBuilder_init_def append_items_def
        table_num_rows_def)
  have build: "ArrowBlockBuilder_build ?b = Inr ?t"
    by (simp add: ArrowBlockBuilder_build_def ArrowBlockBuilder_build_with_def
        Table_from_pydict_def equal_lengths_def table_schema_def append_columns_def)
  have rows: "\<forall>d\<in>set (added_rows ?calls). distinct (map fst d) \<and> set (map fst d) = {''a''}"
    by simp
  have K: "{''a''} \<noteq> ({} :: string set)" by simp
  have ok: "\<forall>u\<in>set (merged_tables ?calls). equal_lengths (table_columns u)"
    by (simp add: equal_lengths_def)
  note th = C1_added_rows_then_merged_blocks [OF run build rows K ok]
  have t1: "table_rows ?t1 = [[(''a'', PyInt 1)]]" and t3: "table_rows ?t3 = [[(''a'', PyInt 3)]]"
    by code_simp+
  from th have "list_all2 dict_eq (table_rows ?t)
           (added_rows ?calls @ concat (map table_rows (merged_tables ?calls)))"
    by (rule conjunct1 [OF conjunct2])
  then have a: "list_all2 dict_eq (table_rows ?t)
      [[(''a'', PyInt 2)], [(''a'', PyInt 4)], [(''a'', PyInt 1)], [(''a'', PyInt 3)]]"
    by (simp add: t1 t3)
  from th have "ArrowBlockAccessor_num_rows (ArrowBlockAccessor ?t)
           = int (length (added_rows ?calls))
               + sum_list (map table_num_rows (merged_tables ?calls))"
    by (rule conjunct1 [OF conjunct2 [OF conjunct2]])
  then have c: "ArrowBlockAccessor_num_rows (ArrowBlockAccessor ?t) = 4"
    by (simp add: table_num_rows_def)
  show ?thesis using a c by (rule conjI)
qed


section \<open>Reading a built block back\<close>

text \<open>
  Dicts over one set of keys with at least one key survive the round trip: when
  \<open>build()\<close> returns a block, \<open>iter_rows()\<close> yields one row view per input dict, in
  order, each over the one-row slice at its index, and the \<open>items()\<close> of the view at
  index \<open>i\<close> equal, as a dict, the \<open>i\<close>-th input dict, whatever its key order.
\<close>

lemma round_trip_of_keyed_rows:
  assumes rows: "\<forall>d\<in>set ds. distinct (map fst d) \<and> set (map fst d) = K"
    and K: "K \<noteq> {}"
    and build: "ArrowBlockBuilder_build
           (snd (ArrowBlockBuilder_calls (map (\<lambda>d. Add (PyDict d)) ds) ArrowBlockBuilder_init))
         = Inr t"
  shows "consume (ArrowBlockAccessor t) (ArrowBlockAccessor_iter_rows (ArrowBlockAccessor t))
           = map (\<lambda>i. ArrowRow (table_slice t (int i) 1)) [0..<length ds] \<and>
         iter_rows_items (ArrowBlockAccessor t) = map Inr (table_rows t) \<and>
         list_all2 dict_eq (table_rows t) ds"
proof -
  let ?calls = "map (\<lambda>d. Add (PyDict d)) ds"
  let ?b = "snd (ArrowBlockBuilder_calls ?calls ArrowBlockBuilder_init)"
  have run: "ArrowBlockBuilder_calls ?calls ArrowBlockBuilder_init = (Inr (), ?b)"
    using adds_of_dicts(1) [of ds ArrowBlockBuilder_init] by (simp add: prod_eq_iff)
  have rows': "\<forall>d\<in>set (added_rows ?calls). distinct (map fst d) \<and> set (map fst d) = K"
    using rows by (simp add: adds_of_dicts)
  have ok: "\<forall>u\<in>set (merged_tables ?calls). equal_lengths (table_columns u)"
    by (simp add: adds_of_dicts)
  note r = build_rows [OF run build rows' K ok]
  have all: "list_all2 dict_eq (table_rows t) ds"
    using r(1) by (simp add: adds_of_dicts)
  have "length (table_rows t) = length ds"
    using all by (rule list_all2_lengthD)
  then have n: "nat (table_num_rows t) = length ds"
    by (simp add: table_rows_def)
  have views: "consume (ArrowBlockAccessor t) (ArrowBlockAccessor_iter_rows (ArrowBlockAccessor t))
           = map (\<lambda>i. ArrowRow (table_slice t (int i) 1)) [0..<length ds]"
    by (simp add: iter_rows_views n)
  have "iter_rows_items (ArrowBlockAccessor t) = map Inr (table_rows t)"
    by (rule items_of_iter_rows [OF r(2)])
  then show ?thesis using views all by simp
qed

text \<open>
  Claim C6 at empty mappings: three times \<open>add({})\<close> on a fresh columnar builder raises
  nothing and the builder counts 3 rows; the dicts share one schema, the one without
  keys. \<open>build()\<close> returns the table without columns, \<open>iter_rows()\<close> on it yields no
  row view, and no mapping is read back: the three input rows are not reproduced.
\<close>

theorem C6_empty_mappings_not_read_back:
  "fst (ArrowBlockBuilder_calls [Add (PyDict []), Add (PyDict []), Add (PyDict [])]
          ArrowBlockBuilder_init) = Inr () \<and>
   ArrowBlockBuilder_num_rows (snd (ArrowBlockBuilder_calls
          [Add (PyDict []), Add (PyDict []), Add (PyDict [])] ArrowBlockBuilder_init)) = 3 \<and>
   ArrowBlockBuilder_build (snd (ArrowBlockBuilder_calls
          [Add (PyDict []), Add (PyDict []), Add (PyDict [])] ArrowBlockBuilder_init))
     = Inr (Table []) \<and>
   consume (ArrowBlockAccessor (Table []))
       (ArrowBlockAccessor_iter_rows (ArrowBlockAccessor (Table []))) = [] \<and>
   iter_rows_items (ArrowBlockAccessor (Table [])) = []"
  by (simp add: ArrowBlockBuilder_calls_def ArrowBlockBuilder_add_def
      ArrowBlockBuilder_init_def append_items_def ArrowBlockBuilder_num_rows_def
      ArrowBlockBuilder_build_def ArrowBlockBuilder_build_with_def Table_from_pydict_def
      equal_lengths_def iter_rows_items_def ArrowBlockAccessor_iter_rows_def Iter_init_def
      Iter_next_def table_num_rows_def consume.simps)

end
